theory Spec2Isabelle
  imports Main "HOL-Library.Word" "HOL-Library.Multiset"
begin

unbundle bit_operations_syntax

section \<open>Data model (models.py)\<close>

text \<open>
  A \<open>datetime\<close> is a point on the UTC time line with microsecond resolution; Python
  compares two naive datetimes by that point, so it is modelled by the number of
  microseconds.
\<close>

type_synonym datetime = int

text \<open>
  \<open>NoteBase\<close> carries \<open>title\<close> and \<open>content\<close>; \<open>NoteCreate\<close> adds nothing to it and
  \<open>Note\<close> extends it by \<open>id\<close>, \<open>created_at\<close> and \<open>updated_at\<close>. The field \<open>id\<close> is
  written \<open>id'\<close>, since \<open>id\<close> is the identity function of HOL. The two optional
  fields of \<open>NoteUpdate\<close> carry the suffix \<open>_upd\<close> to keep them apart from those of
  \<open>NoteBase\<close>; \<open>None\<close> is Python's \<open>None\<close>.
\<close>

record NoteBase =
  title :: string
  content :: string

type_synonym NoteCreate = NoteBase

record NoteUpdate =
  title_upd :: "string option"
  content_upd :: "string option"

record Note = NoteBase +
  id' :: string
  created_at :: datetime
  updated_at :: datetime

text \<open>
  The constraint \<open>min_length=1\<close> of the \<open>title\<close> fields. Pydantic checks it when the
  boundary layer parses a request body, before the repository is called; an absent
  (\<open>None\<close>) title of a \<open>NoteUpdate\<close> passes.
\<close>

definition NoteCreate_valid :: "NoteCreate \<Rightarrow> bool" where
  "NoteCreate_valid note_create = (1 \<le> length (title note_create))"

definition NoteUpdate_valid :: "NoteUpdate \<Rightarrow> bool" where
  "NoteUpdate_valid note_update =
     (case title_upd note_update of None \<Rightarrow> True | Some t \<Rightarrow> 1 \<le> length t)"

text \<open>
  The constructor of a model validates its fields, and raises \<open>ValidationError\<close> when
  one fails. Of the fields of \<open>Note\<close> only \<open>title\<close> carries a constraint that a string
  can fail. \<open>new_Note\<close> is the call
  \<^verbatim>\<open>Note(id=..., title=..., content=..., created_at=..., updated_at=...)\<close>.
\<close>

datatype error = ValidationError

definition new_Note ::
  "string \<Rightarrow> string \<Rightarrow> string \<Rightarrow> datetime \<Rightarrow> datetime \<Rightarrow> error + Note" where
  "new_Note note_id title_arg content_arg created updated =
     (if length title_arg < 1 then Inl ValidationError
      else Inr \<lparr>title = title_arg, content = content_arg,
                id' = note_id, created_at = created, updated_at = updated\<rparr>)"

subsection \<open>Identifiers: \<open>str(uuid.uuid4())\<close>\<close>

text \<open>
  \<open>uuid.uuid4()\<close> reads sixteen random bytes as a big-endian integer, then sets the
  variant bits to RFC 4122 and the version number to 4:
  \<^verbatim>\<open>int &= ~(0xc000 << 48); int |= 0x8000 << 48; int &= ~(0xf000 << 64); int |= 4 << 76\<close>.
  The random bytes are the argument \<open>rnd\<close>. \<open>str\<close> of a UUID prints the integer as
  32 lower-case hexadecimal digits, grouped 8-4-4-4-12 with hyphens.
\<close>

definition uuid4 :: "128 word \<Rightarrow> 128 word" where
  "uuid4 rnd =
     (let i = rnd AND NOT (push_bit 48 0xc000);
          i = i OR push_bit 48 0x8000;
          i = i AND NOT (push_bit 64 0xf000);
          i = i OR push_bit 76 4
      in i)"

definition hex_digit :: "nat \<Rightarrow> char" where
  "hex_digit n = ''0123456789abcdef'' ! (n mod 16)"

definition hex32 :: "128 word \<Rightarrow> string" where
  "hex32 w = map (\<lambda>k. hex_digit (unat (drop_bit (4 * (31 - k)) w AND 0xf))) [0..<32]"

definition str_UUID :: "128 word \<Rightarrow> string" where
  "str_UUID w =
     (let hex = hex32 w
      in take 8 hex @ ''-'' @ take 4 (drop 8 hex) @ ''-'' @ take 4 (drop 12 hex) @ ''-''
         @ take 4 (drop 16 hex) @ ''-'' @ drop 20 hex)"

definition generate_note_id :: "128 word \<Rightarrow> string" where
  "generate_note_id rnd = str_UUID (uuid4 rnd)"

section \<open>The repository (repository.py)\<close>

subsection \<open>Python objects and dictionaries\<close>

text \<open>
  The dictionary \<open>self.notes\<close> holds references to \<open>Note\<close> objects, and so do the lists
  and values the methods return. The object store is a list of the \<open>Note\<close> objects
  allocated so far; a reference is an index into it. Constructing a \<open>Note\<close> appends to
  the store, and so does \<open>note.copy(update=...)\<close>, which builds a new object and does
  not validate the fields it changes. No method of the repository assigns to a field
  of an existing object, so the model has no operation that writes to an allocated
  reference.
\<close>

type_synonym ref = nat

definition alloc :: "Note list \<Rightarrow> Note \<Rightarrow> ref \<times> Note list" where
  "alloc h n = (length h, h @ [n])"

text \<open>
  A Python \<open>dict\<close> keeps its keys in insertion order: it is a list of key-value pairs.
  \<open>d.get(k)\<close> is \<open>dict_get\<close>; \<open>d[k] = v\<close> is \<open>dict_set\<close>, which replaces the value in
  place when the key exists and appends otherwise; \<open>d.pop(k, None)\<close> is \<open>dict_pop\<close>,
  which returns the value removed, if any, with the remaining dictionary;
  \<open>d.values()\<close> is \<open>dict_values\<close>.
\<close>

type_synonym ('k, 'v) dict = "('k \<times> 'v) list"

definition dict_get :: "('k, 'v) dict \<Rightarrow> 'k \<Rightarrow> 'v option" where
  "dict_get d k = map_of d k"

fun dict_set :: "('k, 'v) dict \<Rightarrow> 'k \<Rightarrow> 'v \<Rightarrow> ('k, 'v) dict" where
  "dict_set [] k v = [(k, v)]"
| "dict_set (p # ps) k v = (if fst p = k then (k, v) # ps else p # dict_set ps k v)"

definition dict_pop :: "('k, 'v) dict \<Rightarrow> 'k \<Rightarrow> 'v option \<times> ('k, 'v) dict" where
  "dict_pop d k = (map_of d k, filter (\<lambda>p. fst p \<noteq> k) d)"

definition dict_values :: "('k, 'v) dict \<Rightarrow> 'v list" where
  "dict_values d = map snd d"

definition dict_keys :: "('k, 'v) dict \<Rightarrow> 'k list" where
  "dict_keys d = map fst d"

subsection \<open>State and operations\<close>

text \<open>
  The state is the object store together with the attribute \<open>notes\<close> of the singleton
  \<open>note_repository\<close> (written \<open>notes'\<close>, since \<open>notes\<close> is a keyword of Isar). Each
  method takes the state first (Python's \<open>self\<close>), then its arguments, then what it
  reads from its environment: \<open>now\<close> is the value of \<open>datetime.utcnow()\<close> and \<open>rnd\<close>
  the random bytes drawn by \<open>uuid.uuid4()\<close>. It returns its result with the new
  state. An exception raised by the constructor of \<open>Note\<close> is the left summand of the
  result of \<open>create_note\<close>; it leaves the state as it was.
\<close>

record state =
  heap :: "Note list"
  notes' :: "(string, ref) dict"

definition init :: state where
  "init = \<lparr>heap = [], notes' = []\<rparr>"

definition deref :: "state \<Rightarrow> ref \<Rightarrow> Note" where
  "deref s r = heap s ! r"

definition create_note ::
  "state \<Rightarrow> NoteCreate \<Rightarrow> datetime \<Rightarrow> 128 word \<Rightarrow> (error + ref) \<times> state" where
  "create_note s note_create now rnd =
     (let note_id = generate_note_id rnd
      in case new_Note note_id (title note_create) (content note_create) now now of
           Inl e \<Rightarrow> (Inl e, s)
         | Inr n \<Rightarrow>
             (let (note, h) = alloc (heap s) n
              in (Inr note, s\<lparr>heap := h, notes' := dict_set (notes' s) note_id note\<rparr>)))"

definition get_note :: "state \<Rightarrow> string \<Rightarrow> ref option \<times> state" where
  "get_note s note_id = (dict_get (notes' s) note_id, s)"

definition update_note ::
  "state \<Rightarrow> string \<Rightarrow> NoteUpdate \<Rightarrow> datetime \<Rightarrow> ref option \<times> state" where
  "update_note s note_id note_update now =
     (case dict_get (notes' s) note_id of
        None \<Rightarrow> (None, s)
      | Some note \<Rightarrow>
          (let (updated, h) = alloc (heap s)
                 ((deref s note)
                    \<lparr>title := (case title_upd note_update of
                                 Some t \<Rightarrow> t | None \<Rightarrow> title (deref s note)),
                     content := (case content_upd note_update of
                                 Some c \<Rightarrow> c | None \<Rightarrow> content (deref s note)),
                     updated_at := now\<rparr>)
           in (Some updated, s\<lparr>heap := h, notes' := dict_set (notes' s) note_id updated\<rparr>)))"

definition delete_note :: "state \<Rightarrow> string \<Rightarrow> bool \<times> state" where
  "delete_note s note_id =
     (let (popped, d) = dict_pop (notes' s) note_id
      in (popped \<noteq> None, s\<lparr>notes' := d\<rparr>))"

definition list_notes :: "state \<Rightarrow> ref list \<times> state" where
  "list_notes s = (dict_values (notes' s), s)"

subsection \<open>Histories of calls\<close>

text \<open>
  A call of a method of the repository, with what the method read from its environment
  during the call, and the result it returned.
\<close>

datatype call =
    Create NoteCreate datetime "128 word"
  | Get string
  | Update string NoteUpdate datetime
  | Delete string
  | List

datatype result =
    Created ref
  | Raised error
  | Got "ref option"
  | Updated "ref option"
  | Deleted bool
  | Listed "ref list"

fun exec :: "state \<Rightarrow> call \<Rightarrow> result \<times> state" where
  "exec s (Create note_create now rnd) =
     (case create_note s note_create now rnd of
        (Inl e, s') \<Rightarrow> (Raised e, s')
      | (Inr r, s') \<Rightarrow> (Created r, s'))"
| "exec s (Get note_id) = (case get_note s note_id of (r, s') \<Rightarrow> (Got r, s'))"
| "exec s (Update note_id note_update now) =
     (case update_note s note_id note_update now of (r, s') \<Rightarrow> (Updated r, s'))"
| "exec s (Delete note_id) = (case delete_note s note_id of (b, s') \<Rightarrow> (Deleted b, s'))"
| "exec s List = (case list_notes s of (rs, s') \<Rightarrow> (Listed rs, s'))"

fun run :: "state \<Rightarrow> call list \<Rightarrow> result list \<times> state" where
  "run s [] = ([], s)"
| "run s (c # cs) =
     (case exec s c of (r, s') \<Rightarrow> (case run s' cs of (rs, s'') \<Rightarrow> (r # rs, s'')))"

text \<open>The clock readings of a history, in the order they were taken.\<close>

fun clock :: "call list \<Rightarrow> datetime list" where
  "clock [] = []"
| "clock (Create note_create now rnd # cs) = now # clock cs"
| "clock (Update note_id note_update now # cs) = now # clock cs"
| "clock (c # cs) = clock cs"

text \<open>
  The identifiers generated during a history, one for each call of
  \<open>generate_note_id\<close>.
\<close>

fun generated_ids :: "call list \<Rightarrow> string list" where
  "generated_ids [] = []"
| "generated_ids (Create note_create now rnd # cs) = generate_note_id rnd # generated_ids cs"
| "generated_ids (c # cs) = generated_ids cs"

text \<open>
  The identifiers of the notes that the \<open>create_note\<close> calls returned, read from the
  results of a history in its final state.
\<close>

fun returned_ids :: "state \<Rightarrow> result list \<Rightarrow> string list" where
  "returned_ids s [] = []"
| "returned_ids s (Created r # rs) = id' (deref s r) # returned_ids s rs"
| "returned_ids s (x # rs) = returned_ids s rs"

text \<open>
  The number of notes created (the \<open>create_note\<close> calls that returned a note) and the
  number of successful deletes (the \<open>delete_note\<close> calls that returned \<open>True\<close>).
\<close>

fun creates :: "result list \<Rightarrow> nat" where
  "creates [] = 0"
| "creates (Created r # rs) = Suc (creates rs)"
| "creates (x # rs) = creates rs"

fun successful_deletes :: "result list \<Rightarrow> nat" where
  "successful_deletes [] = 0"
| "successful_deletes (Deleted True # rs) = Suc (successful_deletes rs)"
| "successful_deletes (x # rs) = successful_deletes rs"

text \<open>The validation of the boundary layer, for each call that carries a body.\<close>

fun validated :: "call \<Rightarrow> bool" where
  "validated (Create note_create now rnd) = NoteCreate_valid note_create"
| "validated (Update note_id note_update now) = NoteUpdate_valid note_update"
| "validated c = True"

fun is_create :: "call \<Rightarrow> bool" where
  "is_create (Create note_create now rnd) = True"
| "is_create c = False"

text \<open>
  No \<open>create_note\<close> of the history generates an identifier that is a key of the
  dictionary at the time of the call: every \<open>self.notes[note_id] = note\<close> adds an
  entry, none replaces one.
\<close>

fun fresh_ids :: "state \<Rightarrow> call list \<Rightarrow> bool" where
  "fresh_ids s [] = True"
| "fresh_ids s (c # cs) =
     (list_all (\<lambda>k. k \<notin> set (dict_keys (notes' s))) (generated_ids [c])
      \<and> fresh_ids (snd (exec s c)) cs)"

subsection \<open>Well-formed states and the invariants of the claims\<close>

text \<open>
  What Python guarantees of any state: the keys of a dictionary are distinct, and
  every reference it holds is to an allocated object.
\<close>

definition well_formed :: "state \<Rightarrow> bool" where
  "well_formed s = (distinct (dict_keys (notes' s))
           \<and> list_all (\<lambda>r. r < length (heap s)) (dict_values (notes' s)))"

definition stored :: "state \<Rightarrow> Note list" where
  "stored s = map (deref s) (dict_values (notes' s))"

definition stamps_ordered :: "state \<Rightarrow> bool" where
  "stamps_ordered s = list_all (\<lambda>n. created_at n \<le> updated_at n) (stored s)"

definition titles_nonempty :: "state \<Rightarrow> bool" where
  "titles_nonempty s = list_all (\<lambda>n. title n \<noteq> []) (stored s)"

text \<open>
  The entry of the dictionary for a key: the reference stored under it, with the object
  that the reference denotes.
\<close>

definition entry :: "state \<Rightarrow> string \<Rightarrow> (ref \<times> Note) option" where
  "entry s k = map_option (\<lambda>r. (r, deref s r)) (dict_get (notes' s) k)"

section \<open>The DELETE handler (main.py)\<close>

text \<open>
  \<open>raise HTTPException(...)\<close> is the left summand of the result. The handler returns
  Starlette's \<open>JSONResponse(status_code=..., content=...)\<close>, whose constructor renders
  the body at once, as \<open>json.dumps(content, ...).encode("utf-8")\<close>; the only content
  this program passes is \<open>None\<close>, which \<open>json.dumps\<close> prints as \<open>null\<close>. A response
  object that a handler returns is sent as it is.
\<close>

record HTTPException =
  status_code :: nat
  detail :: string

record Response =
  response_status_code :: nat
  body :: string

datatype json = JNone

fun json_dumps :: "json \<Rightarrow> string" where
  "json_dumps JNone = ''null''"

definition JSONResponse :: "nat \<Rightarrow> json \<Rightarrow> Response" where
  "JSONResponse code content' = \<lparr>response_status_code = code, body = json_dumps content'\<rparr>"

definition delete_note_handler :: "state \<Rightarrow> string \<Rightarrow> (HTTPException + Response) \<times> state" where
  "delete_note_handler s note_id =
     (let (deleted, s') = delete_note s note_id
      in if \<not> deleted
         then (Inl \<lparr>status_code = 404, detail = ''Note not found''\<rparr>, s')
         else (Inr (JSONResponse 204 JNone), s'))"

section \<open>Example requests and states\<close>

definition groceries :: NoteCreate where
  "groceries = \<lparr>title = ''Groceries'', content = ''Milk, eggs''\<rparr>"

definition chores :: NoteCreate where
  "chores = \<lparr>title = ''Chores'', content = ''''\<rparr>"

definition bread :: NoteUpdate where
  "bread = \<lparr>title_upd = None, content_upd = Some ''Milk, eggs, bread''\<rparr>"

definition shopping :: NoteUpdate where
  "shopping = \<lparr>title_upd = Some ''Shopping'', content_upd = None\<rparr>"

definition id0 :: string where
  "id0 = ''00000000-0000-4000-8000-000000000000''"

definition id1 :: string where
  "id1 = ''00000000-0000-4000-8000-000000000001''"

definition note0 :: Note where
  "note0 = \<lparr>title = ''Groceries'', content = ''Milk, eggs'', id' = id0,
            created_at = 1000, updated_at = 1000\<rparr>"

definition note1 :: Note where
  "note1 = \<lparr>title = ''Chores'', content = '''', id' = id1,
            created_at = 1500, updated_at = 1500\<rparr>"

definition note0_bread :: Note where
  "note0_bread = \<lparr>title = ''Groceries'', content = ''Milk, eggs, bread'', id' = id0,
            created_at = 1000, updated_at = 2000\<rparr>"

definition one_note :: state where
  "one_note = \<lparr>heap = [note0], notes' = [(id0, 0)]\<rparr>"

definition two_notes :: state where
  "two_notes = \<lparr>heap = [note0, note1], notes' = [(id0, 0), (id1, 1)]\<rparr>"

section \<open>Basic facts\<close>

subsection \<open>Identifiers\<close>

lemma length_hex32: "length (hex32 w) = 32"
  by (simp add: hex32_def)

lemma length_generate_note_id: "length (generate_note_id rnd) = 36"
  by (simp add: generate_note_id_def str_UUID_def length_hex32 Let_def)

lemma generate_note_id_0: "generate_note_id 0 = ''00000000-0000-4000-8000-000000000000''"
  by code_simp

lemma generate_note_id_1: "generate_note_id 1 = ''00000000-0000-4000-8000-000000000001''"
  by code_simp

lemma generate_note_id_255: "generate_note_id 0xff = ''00000000-0000-4000-8000-0000000000ff''"
  by code_simp

subsection \<open>Dictionaries\<close>

lemma dict_get_dict_set:
  "dict_get (dict_set d k v) k' = (if k' = k then Some v else dict_get d k')"
  by (induction d) (auto simp: dict_get_def)

lemma dict_get_filter:
  "dict_get (filter (\<lambda>p. fst p \<noteq> k) d) k' = (if k' = k then None else dict_get d k')"
  by (induction d) (auto simp: dict_get_def)

lemma dict_get_None_iff: "dict_get d k = None \<longleftrightarrow> k \<notin> set (dict_keys d)"
  by (simp add: dict_get_def dict_keys_def map_of_eq_None_iff)

lemma dict_get_Some_keys: "dict_get d k = Some v \<Longrightarrow> k \<in> set (dict_keys d)"
  using dict_get_None_iff [of d k] by auto

lemma dict_get_Some_values: "dict_get d k = Some v \<Longrightarrow> v \<in> set (dict_values d)"
  by (auto simp: dict_get_def dict_values_def dest: map_of_SomeD intro: rev_image_eqI)

lemma dict_keys_dict_set:
  "dict_keys (dict_set d k v) =
     (if k \<in> set (dict_keys d) then dict_keys d else dict_keys d @ [k])"
  by (induction d) (auto simp: dict_keys_def)

lemma set_dict_set: "set (dict_set d k v) \<subseteq> insert (k, v) (set d)"
  by (induction d) auto

lemma set_dict_values_dict_set:
  "set (dict_values (dict_set d k v)) \<subseteq> insert v (set (dict_values d))"
  by (induction d) (auto simp: dict_values_def)

lemma filter_absent: "dict_get d k = None \<Longrightarrow> filter (\<lambda>p. fst p \<noteq> k) d = d"
  by (induction d) (auto simp: dict_get_def split: if_splits)

lemma length_filter_key:
  "distinct (dict_keys d) \<Longrightarrow> k \<in> set (dict_keys d) \<Longrightarrow>
   Suc (length (filter (\<lambda>p. fst p \<noteq> k) d)) = length d"
proof (induction d)
  case Nil
  then show ?case by (simp add: dict_keys_def)
next
  case (Cons p d)
  show ?case
  proof (cases "fst p = k")
    case True
    with Cons.prems have "k \<notin> fst ` set d" by (auto simp: dict_keys_def)
    then have "filter (\<lambda>p. fst p \<noteq> k) d = d" by (auto intro: filter_True)
    with True show ?thesis by simp
  next
    case False
    with Cons show ?thesis by (auto simp: dict_keys_def)
  qed
qed

subsection \<open>The operations, unfolded\<close>

lemma create_note_valid:
  "title note_create \<noteq> [] \<Longrightarrow>
   create_note s note_create now rnd =
     (Inr (length (heap s)),
      s\<lparr>heap := heap s @ [\<lparr>title = title note_create, content = content note_create,
                            id' = generate_note_id rnd, created_at = now, updated_at = now\<rparr>],
        notes' := dict_set (notes' s) (generate_note_id rnd) (length (heap s))\<rparr>)"
  by (simp add: create_note_def new_Note_def alloc_def Let_def)

lemma create_note_invalid:
  "title note_create = [] \<Longrightarrow> create_note s note_create now rnd = (Inl ValidationError, s)"
  by (simp add: create_note_def new_Note_def)

lemma update_note_None:
  "dict_get (notes' s) note_id = None \<Longrightarrow> update_note s note_id note_update now = (None, s)"
  by (simp add: update_note_def)

lemma update_note_Some:
  "dict_get (notes' s) note_id = Some r \<Longrightarrow>
   update_note s note_id note_update now =
     (Some (length (heap s)),
      s\<lparr>heap := heap s @ [(deref s r)
                \<lparr>title := (case title_upd note_update of Some t \<Rightarrow> t | None \<Rightarrow> title (deref s r)),
                 content := (case content_upd note_update of
                               Some c \<Rightarrow> c | None \<Rightarrow> content (deref s r)),
                 updated_at := now\<rparr>],
        notes' := dict_set (notes' s) note_id (length (heap s))\<rparr>)"
  by (simp add: update_note_def alloc_def Let_def)

lemma delete_note_eq:
  "delete_note s note_id =
     (dict_get (notes' s) note_id \<noteq> None,
      s\<lparr>notes' := filter (\<lambda>p. fst p \<noteq> note_id) (notes' s)\<rparr>)"
  by (simp add: delete_note_def dict_pop_def dict_get_def)

lemma delete_note_handler_eq:
  "delete_note_handler s note_id =
     (if dict_get (notes' s) note_id = None
      then (Inl \<lparr>status_code = 404, detail = ''Note not found''\<rparr>, s)
      else (Inr \<lparr>response_status_code = 204, body = ''null''\<rparr>,
            s\<lparr>notes' := filter (\<lambda>p. fst p \<noteq> note_id) (notes' s)\<rparr>))"
  by (simp add: delete_note_handler_def delete_note_eq JSONResponse_def filter_absent)

lemma exec_Create_valid:
  "title note_create \<noteq> [] \<Longrightarrow>
   exec s (Create note_create now rnd) =
     (Created (length (heap s)),
      s\<lparr>heap := heap s @ [\<lparr>title = title note_create, content = content note_create,
                            id' = generate_note_id rnd, created_at = now, updated_at = now\<rparr>],
        notes' := dict_set (notes' s) (generate_note_id rnd) (length (heap s))\<rparr>)"
  by (simp add: create_note_valid)

lemma exec_Create_invalid:
  "title note_create = [] \<Longrightarrow> exec s (Create note_create now rnd) = (Raised ValidationError, s)"
  by (simp add: create_note_invalid)

lemma snd_run_Cons: "snd (run s (c # cs)) = snd (run (snd (exec s c)) cs)"
  by (simp split: prod.splits)

lemma fst_run_Cons: "fst (run s (c # cs)) = fst (exec s c) # fst (run (snd (exec s c)) cs)"
  by (simp split: prod.splits)

subsection \<open>Well-formed states\<close>

lemma well_formed_init: "well_formed init"
  by (simp add: well_formed_def init_def dict_keys_def dict_values_def)

lemma well_formed_alloc:
  assumes "well_formed s"
  shows "well_formed (s\<lparr>heap := heap s @ [n],
                        notes' := dict_set (notes' s) k (length (heap s))\<rparr>)"
proof -
  have "distinct (dict_keys (dict_set (notes' s) k (length (heap s))))"
    using assms by (simp add: well_formed_def dict_keys_dict_set)
  moreover have "\<forall>r \<in> set (dict_values (dict_set (notes' s) k (length (heap s)))).
                   r < Suc (length (heap s))"
    using assms set_dict_values_dict_set [of "notes' s" k "length (heap s)"]
    by (auto simp: well_formed_def list_all_iff less_Suc_eq)
  ultimately show ?thesis by (simp add: well_formed_def list_all_iff)
qed

lemma well_formed_filter:
  assumes "well_formed s"
  shows "well_formed (s\<lparr>notes' := filter P (notes' s)\<rparr>)"
  using assms
  by (auto simp: well_formed_def list_all_iff dict_keys_def dict_values_def distinct_map_filter)

lemma well_formed_exec:
  assumes "well_formed s"
  shows "well_formed (snd (exec s c))"
proof (cases c)
  case (Create note_create now rnd)
  with assms show ?thesis
    by (cases "title note_create = []")
      (simp_all add: exec_Create_valid exec_Create_invalid well_formed_alloc del: exec.simps)
next
  case (Update note_id note_update now)
  with assms show ?thesis
    by (cases "dict_get (notes' s) note_id")
      (simp_all add: update_note_None update_note_Some well_formed_alloc)
qed (use assms in \<open>simp_all add: get_note_def delete_note_eq well_formed_filter list_notes_def\<close>)

lemma well_formed_run: "well_formed s \<Longrightarrow> well_formed (snd (run s cs))"
  by (induction cs arbitrary: s) (simp_all del: run.simps(2) add: snd_run_Cons well_formed_exec)

lemma well_formed_allocated:
  "well_formed s \<Longrightarrow> dict_get (notes' s) k = Some r \<Longrightarrow> r < length (heap s)"
  by (auto simp: well_formed_def list_all_iff dest: dict_get_Some_values)

subsection \<open>The object store only grows\<close>

lemma heap_exec: "\<exists>ys. heap (snd (exec s c)) = heap s @ ys"
proof (cases c)
  case (Create note_create now rnd)
  then show ?thesis
    by (cases "title note_create = []")
      (simp_all add: exec_Create_valid exec_Create_invalid del: exec.simps)
next
  case (Update note_id note_update now)
  then show ?thesis
    by (cases "dict_get (notes' s) note_id") (simp_all add: update_note_None update_note_Some)
qed (simp_all add: get_note_def delete_note_eq list_notes_def)

lemma heap_run: "\<exists>ys. heap (snd (run s cs)) = heap s @ ys"
proof (induction cs arbitrary: s)
  case Nil
  then show ?case by simp
next
  case (Cons c cs)
  obtain ys where ys: "heap (snd (exec s c)) = heap s @ ys" using heap_exec by blast
  obtain zs where "heap (snd (run (snd (exec s c)) cs)) = heap (snd (exec s c)) @ zs"
    using Cons.IH by blast
  then show ?case by (simp add: snd_run_Cons ys del: run.simps(2))
qed

lemma deref_run: "r < length (heap s) \<Longrightarrow> deref (snd (run s cs)) r = deref s r"
  using heap_run [of s cs] by (auto simp: deref_def nth_append)

subsection \<open>The keys of the dictionary\<close>

lemma keys_exec_not_create:
  "\<not> is_create c \<Longrightarrow> set (dict_keys (notes' (snd (exec s c)))) \<subseteq> set (dict_keys (notes' s))"
proof (cases c)
  case (Update note_id note_update now)
  then show ?thesis
    by (cases "dict_get (notes' s) note_id")
      (auto simp: update_note_None update_note_Some dict_keys_dict_set dest: dict_get_Some_keys)
next
  case (Delete note_id)
  then show ?thesis by (auto simp: delete_note_eq dict_keys_def)
qed (auto simp: get_note_def list_notes_def)

lemma keys_run_not_create:
  "list_all (\<lambda>c. \<not> is_create c) cs \<Longrightarrow>
   set (dict_keys (notes' (snd (run s cs)))) \<subseteq> set (dict_keys (notes' s))"
proof (induction cs arbitrary: s)
  case Nil
  then show ?case by simp
next
  case (Cons c cs)
  have "set (dict_keys (notes' (snd (run (snd (exec s c)) cs))))
          \<subseteq> set (dict_keys (notes' (snd (exec s c))))"
    using Cons by simp
  also have "\<dots> \<subseteq> set (dict_keys (notes' s))"
    using Cons.prems by (simp add: keys_exec_not_create)
  finally show ?case by (simp only: snd_run_Cons)
qed

lemma keys_exec:
  "set (dict_keys (notes' (snd (exec s c))))
     \<subseteq> set (dict_keys (notes' s)) \<union> set (generated_ids [c])"
proof (cases c)
  case (Create note_create now rnd)
  then show ?thesis
    by (cases "title note_create = []")
      (auto simp: exec_Create_valid exec_Create_invalid dict_keys_dict_set simp del: exec.simps)
qed (use keys_exec_not_create [of c s] in auto)

lemma returned_ids_Cons: "set (returned_ids s rs) \<subseteq> set (returned_ids s (x # rs))"
  by (cases x) auto

lemma keys_returned_run:
  "set (dict_keys (notes' (snd (run s cs))))
     \<subseteq> set (dict_keys (notes' s)) \<union> set (returned_ids (snd (run s cs)) (fst (run s cs)))"
proof (induction cs arbitrary: s)
  case Nil
  then show ?case by simp
next
  case (Cons c cs)
  let ?s1 = "snd (exec s c)"
  let ?sf = "snd (run ?s1 cs)"
  let ?rs = "fst (run ?s1 cs)"
  have IH: "set (dict_keys (notes' ?sf))
              \<subseteq> set (dict_keys (notes' ?s1)) \<union> set (returned_ids ?sf ?rs)"
    by (rule Cons.IH)
  have rest: "set (returned_ids ?sf ?rs) \<subseteq> set (returned_ids ?sf (fst (exec s c) # ?rs))"
    by (rule returned_ids_Cons)
  have step: "set (dict_keys (notes' ?s1))
                \<subseteq> set (dict_keys (notes' s)) \<union> set (returned_ids ?sf (fst (exec s c) # ?rs))"
  proof (cases "is_create c")
    case False
    then show ?thesis using keys_exec_not_create [of c s] by auto
  next
    case True
    then obtain note_create now rnd where c: "c = Create note_create now rnd"
      by (cases c) auto
    show ?thesis
    proof (cases "title note_create = []")
      case True
      then show ?thesis by (auto simp: c exec_Create_invalid simp del: exec.simps)
    next
      case False
      have "deref ?sf (length (heap s)) = deref ?s1 (length (heap s))"
        by (rule deref_run) (simp add: c exec_Create_valid [OF False] del: exec.simps)
      also have "id' \<dots> = generate_note_id rnd"
        by (simp add: c exec_Create_valid [OF False] deref_def del: exec.simps)
      finally have "generate_note_id rnd
                      \<in> set (returned_ids ?sf (fst (exec s c) # ?rs))"
        by (simp add: c exec_Create_valid [OF False] del: exec.simps)
      moreover have "set (dict_keys (notes' ?s1))
                       \<subseteq> insert (generate_note_id rnd) (set (dict_keys (notes' s)))"
        by (auto simp: c exec_Create_valid [OF False] dict_keys_dict_set simp del: exec.simps)
      ultimately show ?thesis by auto
    qed
  qed
  from IH rest step show ?case
    unfolding snd_run_Cons fst_run_Cons by blast
qed

subsection \<open>The notes in the store\<close>

lemma stored_alloc:
  assumes "well_formed s"
  shows "set (stored (s\<lparr>heap := heap s @ [n],
                        notes' := dict_set (notes' s) k (length (heap s))\<rparr>))
           \<subseteq> insert n (set (stored s))"
proof
  fix x
  assume "x \<in> set (stored (s\<lparr>heap := heap s @ [n],
                               notes' := dict_set (notes' s) k (length (heap s))\<rparr>))"
  then obtain r where r: "r \<in> set (dict_values (dict_set (notes' s) k (length (heap s))))"
    and x: "x = (heap s @ [n]) ! r"
    by (auto simp: stored_def deref_def)
  from r set_dict_values_dict_set [of "notes' s" k "length (heap s)"]
  consider "r = length (heap s)" | "r \<in> set (dict_values (notes' s))" by auto
  then show "x \<in> insert n (set (stored s))"
  proof cases
    case 1
    then show ?thesis by (simp add: x)
  next
    case 2
    with assms have "r < length (heap s)" by (simp add: well_formed_def list_all_iff)
    with 2 show ?thesis by (auto simp: x nth_append stored_def deref_def)
  qed
qed

lemma stored_filter: "set (stored (s\<lparr>notes' := filter P (notes' s)\<rparr>)) \<subseteq> set (stored s)"
  by (auto simp: stored_def deref_def dict_values_def)

lemma dict_get_Some_stored: "dict_get (notes' s) k = Some r \<Longrightarrow> deref s r \<in> set (stored s)"
  by (auto simp: stored_def dest: dict_get_Some_values)

text \<open>
  A property of notes holds of the store after a call when it held before and holds
  of the note that the call constructs.
\<close>

lemma list_all_stored_exec:
  assumes "well_formed s" and "list_all P (stored s)"
    and "\<And>note_create now rnd. c = Create note_create now rnd \<Longrightarrow> title note_create \<noteq> [] \<Longrightarrow>
           P \<lparr>title = title note_create, content = content note_create,
              id' = generate_note_id rnd, created_at = now, updated_at = now\<rparr>"
    and "\<And>note_id note_update now n. c = Update note_id note_update now \<Longrightarrow>
           n \<in> set (stored s) \<Longrightarrow>
           P (n\<lparr>title := (case title_upd note_update of Some t \<Rightarrow> t | None \<Rightarrow> title n),
                content := (case content_upd note_update of Some c \<Rightarrow> c | None \<Rightarrow> content n),
                updated_at := now\<rparr>)"
  shows "list_all P (stored (snd (exec s c)))"
proof (cases c)
  case (Create note_create now rnd)
  show ?thesis
  proof (cases "title note_create = []")
    case True
    with Create assms(2) show ?thesis by (simp add: exec_Create_invalid del: exec.simps)
  next
    case False
    with Create assms(2) assms(3) [OF Create False] stored_alloc [OF assms(1)] show ?thesis
      by (auto simp: exec_Create_valid list_all_iff simp del: exec.simps)
  qed
next
  case (Update note_id note_update now)
  show ?thesis
  proof (cases "dict_get (notes' s) note_id")
    case None
    with Update assms(2) show ?thesis by (simp add: update_note_None)
  next
    case (Some r)
    have "P ((deref s r)\<lparr>title := (case title_upd note_update of
                                     Some t \<Rightarrow> t | None \<Rightarrow> title (deref s r)),
                content := (case content_upd note_update of
                                     Some c \<Rightarrow> c | None \<Rightarrow> content (deref s r)),
                updated_at := now\<rparr>)"
      using assms(4) [OF Update dict_get_Some_stored [OF Some]] .
    with Update assms(2) stored_alloc [OF assms(1)] show ?thesis
      by (auto simp: update_note_Some [OF Some] list_all_iff)
  qed
next
  case (Delete note_id)
  with assms(2) stored_filter [where s = s] show ?thesis
    by (auto simp: delete_note_eq list_all_iff)
qed (use assms(2) in \<open>simp_all add: get_note_def list_notes_def\<close>)

subsection \<open>Titles and time stamps\<close>

lemma titles_exec:
  assumes "well_formed s" and "titles_nonempty s" and "validated c"
  shows "titles_nonempty (snd (exec s c))"
  unfolding titles_nonempty_def
proof (rule list_all_stored_exec [OF assms(1)])
  show "list_all (\<lambda>n. title n \<noteq> []) (stored s)"
    using assms(2) by (simp add: titles_nonempty_def)
next
  fix note_create :: NoteCreate and now :: datetime and rnd :: "128 word"
  assume "title note_create \<noteq> []"
  then show "title \<lparr>title = title note_create, content = content note_create,
              id' = generate_note_id rnd, created_at = now, updated_at = now\<rparr> \<noteq> []"
    by simp
next
  fix note_id and note_update :: NoteUpdate and now and n :: Note
  assume "c = Update note_id note_update now" and "n \<in> set (stored s)"
  with assms(2,3)
  show "title (n\<lparr>title := (case title_upd note_update of Some t \<Rightarrow> t | None \<Rightarrow> title n),
                content := (case content_upd note_update of Some c \<Rightarrow> c | None \<Rightarrow> content n),
                updated_at := now\<rparr>) \<noteq> []"
    by (auto simp: NoteUpdate_valid_def titles_nonempty_def list_all_iff split: option.splits)
qed

lemma titles_run:
  "well_formed s \<Longrightarrow> titles_nonempty s \<Longrightarrow> list_all validated cs \<Longrightarrow>
   titles_nonempty (snd (run s cs))"
  by (induction cs arbitrary: s)
    (simp_all del: run.simps(2) add: snd_run_Cons well_formed_exec titles_exec)

lemma stamps_exec:
  assumes "well_formed s"
    and "list_all (\<lambda>n. created_at n \<le> updated_at n \<and> created_at n \<le> t) (stored s)"
    and "list_all (\<lambda>now. t \<le> now) (clock [c])"
  shows "list_all (\<lambda>n. created_at n \<le> updated_at n \<and> created_at n \<le> last (t # clock [c]))
           (stored (snd (exec s c)))"
proof (rule list_all_stored_exec [OF assms(1)])
  show "list_all (\<lambda>n. created_at n \<le> updated_at n \<and> created_at n \<le> last (t # clock [c]))
          (stored s)"
    using assms(2,3) by (cases c) (auto simp: list_all_iff)
next
  fix note_create :: NoteCreate and now :: datetime and rnd :: "128 word"
  assume "c = Create note_create now rnd"
  then show "created_at \<lparr>title = title note_create, content = content note_create,
              id' = generate_note_id rnd, created_at = now, updated_at = now\<rparr>
           \<le> updated_at \<lparr>title = title note_create, content = content note_create,
              id' = generate_note_id rnd, created_at = now, updated_at = now\<rparr>
         \<and> created_at \<lparr>title = title note_create, content = content note_create,
              id' = generate_note_id rnd, created_at = now, updated_at = now\<rparr>
           \<le> last (t # clock [c])"
    by simp
next
  fix note_id and note_update :: NoteUpdate and now and n :: Note
  let ?u = "n\<lparr>title := (case title_upd note_update of Some t \<Rightarrow> t | None \<Rightarrow> title n),
                content := (case content_upd note_update of Some c \<Rightarrow> c | None \<Rightarrow> content n),
                updated_at := now\<rparr>"
  assume "c = Update note_id note_update now" and "n \<in> set (stored s)"
  with assms(2,3)
  show "created_at ?u \<le> updated_at ?u \<and> created_at ?u \<le> last (t # clock [c])"
    by (auto simp: list_all_iff)
qed

lemma stamps_run:
  "well_formed s \<Longrightarrow>
   list_all (\<lambda>n. created_at n \<le> updated_at n \<and> created_at n \<le> t) (stored s) \<Longrightarrow>
   sorted (t # clock cs) \<Longrightarrow> stamps_ordered (snd (run s cs))"
proof (induction cs arbitrary: s t)
  case Nil
  then show ?case by (simp add: stamps_ordered_def list_all_iff)
next
  case (Cons c cs)
  have le: "list_all (\<lambda>now. t \<le> now) (clock [c])"
    using Cons.prems(3) by (cases c) auto
  have srt: "sorted (last (t # clock [c]) # clock cs)"
    using Cons.prems(3) by (cases c) auto
  show ?case
    unfolding snd_run_Cons
    by (rule Cons.IH [OF well_formed_exec [OF Cons.prems(1)]
          stamps_exec [OF Cons.prems(1) Cons.prems(2) le] srt])
qed

lemma stamps_step:
  assumes "well_formed s" and "stamps_ordered s"
    and "list_all (\<lambda>now. list_all (\<lambda>n. updated_at n \<le> now) (stored s)) (clock [c])"
  shows "stamps_ordered (snd (exec s c))"
  unfolding stamps_ordered_def
proof (rule list_all_stored_exec [OF assms(1)])
  show "list_all (\<lambda>n. created_at n \<le> updated_at n) (stored s)"
    using assms(2) by (simp add: stamps_ordered_def)
next
  fix note_create :: NoteCreate and now :: datetime and rnd :: "128 word"
  show "created_at \<lparr>title = title note_create, content = content note_create,
              id' = generate_note_id rnd, created_at = now, updated_at = now\<rparr>
           \<le> updated_at \<lparr>title = title note_create, content = content note_create,
              id' = generate_note_id rnd, created_at = now, updated_at = now\<rparr>"
    by simp
next
  fix note_id and note_update :: NoteUpdate and now and n :: Note
  let ?u = "n\<lparr>title := (case title_upd note_update of Some t \<Rightarrow> t | None \<Rightarrow> title n),
                content := (case content_upd note_update of Some c \<Rightarrow> c | None \<Rightarrow> content n),
                updated_at := now\<rparr>"
  assume "c = Update note_id note_update now" and "n \<in> set (stored s)"
  with assms(2,3)
  show "created_at ?u \<le> updated_at ?u"
    by (fastforce simp: list_all_iff stamps_ordered_def)
qed

subsection \<open>Every note is stored under its own identifier\<close>

lemma keyed_alloc:
  assumes "well_formed s" and "list_all (\<lambda>(k, r). id' (deref s r) = k) (notes' s)"
    and "id' n = k"
  shows "list_all (\<lambda>(k', r). id' (deref (s\<lparr>heap := heap s @ [n],
                        notes' := dict_set (notes' s) k (length (heap s))\<rparr>) r) = k')
           (dict_set (notes' s) k (length (heap s)))"
proof -
  have "id' ((heap s @ [n]) ! r) = k'"
    if "(k', r) \<in> set (dict_set (notes' s) k (length (heap s)))" for k' r
  proof -
    from that set_dict_set [of "notes' s" k "length (heap s)"]
    consider "k' = k" "r = length (heap s)" | "(k', r) \<in> set (notes' s)" by auto
    then show ?thesis
    proof cases
      case 1
      then show ?thesis by (simp add: assms(3))
    next
      case 2
      then have "r \<in> set (dict_values (notes' s))"
        by (auto simp: dict_values_def intro: rev_image_eqI)
      with assms(1) have "r < length (heap s)" by (simp add: well_formed_def list_all_iff)
      with 2 assms(2) show ?thesis by (auto simp: list_all_iff nth_append deref_def)
    qed
  qed
  then show ?thesis by (auto simp: list_all_iff deref_def)
qed

lemma keyed_exec:
  assumes "well_formed s" and "list_all (\<lambda>(k, r). id' (deref s r) = k) (notes' s)"
  shows "list_all (\<lambda>(k, r). id' (deref (snd (exec s c)) r) = k) (notes' (snd (exec s c)))"
proof (cases c)
  case (Create note_create now rnd)
  show ?thesis
  proof (cases "title note_create = []")
    case True
    with Create assms(2) show ?thesis by (simp add: exec_Create_invalid del: exec.simps)
  next
    case False
    with Create show ?thesis
      using keyed_alloc [OF assms, of _ "generate_note_id rnd"]
      by (simp add: exec_Create_valid del: exec.simps)
  qed
next
  case (Update note_id note_update now)
  show ?thesis
  proof (cases "dict_get (notes' s) note_id")
    case None
    with Update assms(2) show ?thesis by (simp add: update_note_None)
  next
    case (Some r)
    then have "(note_id, r) \<in> set (notes' s)"
      by (auto simp: dict_get_def dest: map_of_SomeD)
    with assms(2) have "id' (deref s r) = note_id" by (auto simp: list_all_iff)
    then show ?thesis
      using keyed_alloc [OF assms, of _ note_id] Update by (simp add: update_note_Some [OF Some])
  qed
next
  case (Delete note_id)
  with assms(2) show ?thesis by (auto simp: delete_note_eq list_all_iff deref_def)
qed (use assms(2) in \<open>simp_all add: get_note_def list_notes_def\<close>)

lemma keyed_run:
  "well_formed s \<Longrightarrow> list_all (\<lambda>(k, r). id' (deref s r) = k) (notes' s) \<Longrightarrow>
   list_all (\<lambda>(k, r). id' (deref (snd (run s cs)) r) = k) (notes' (snd (run s cs)))"
  by (induction cs arbitrary: s)
    (simp_all del: run.simps(2) add: snd_run_Cons well_formed_exec keyed_exec)

lemma keyed_ids:
  "list_all (\<lambda>(k, r). id' (deref s r) = k) d \<Longrightarrow>
   map (\<lambda>r. id' (deref s r)) (dict_values d) = dict_keys d"
  by (induction d) (auto simp: dict_values_def dict_keys_def)

subsection \<open>Counting the notes\<close>

lemma count_exec:
  assumes "well_formed s"
    and "set (dict_keys (notes' s)) \<inter> set (generated_ids [c]) = {}"
  shows "length (notes' (snd (exec s c))) + successful_deletes [fst (exec s c)]
           = length (notes' s) + creates [fst (exec s c)]"
proof (cases c)
  case (Create note_create now rnd)
  show ?thesis
  proof (cases "title note_create = []")
    case True
    then show ?thesis by (simp add: Create exec_Create_invalid del: exec.simps)
  next
    case False
    from Create assms(2) have "generate_note_id rnd \<notin> set (dict_keys (notes' s))" by auto
    then have "length (dict_keys (dict_set (notes' s) (generate_note_id rnd) (length (heap s))))
                 = Suc (length (dict_keys (notes' s)))"
      by (simp add: dict_keys_dict_set)
    then show ?thesis
      by (simp add: Create exec_Create_valid [OF False] dict_keys_def del: exec.simps)
  qed
next
  case (Update note_id note_update now)
  show ?thesis
  proof (cases "dict_get (notes' s) note_id")
    case None
    then show ?thesis by (simp add: Update update_note_None)
  next
    case (Some r)
    have "length (dict_keys (dict_set (notes' s) note_id (length (heap s))))
               = length (dict_keys (notes' s))"
      using dict_get_Some_keys [OF Some] by (simp add: dict_keys_dict_set)
    then show ?thesis by (simp add: Update update_note_Some [OF Some] dict_keys_def)
  qed
next
  case (Delete note_id)
  show ?thesis
  proof (cases "dict_get (notes' s) note_id")
    case None
    then show ?thesis by (simp add: Delete delete_note_eq filter_absent)
  next
    case (Some r)
    have "Suc (length (filter (\<lambda>p. fst p \<noteq> note_id) (notes' s))) = length (notes' s)"
      using assms(1) dict_get_Some_keys [OF Some]
      by (intro length_filter_key) (simp_all add: well_formed_def)
    then show ?thesis by (simp add: Delete delete_note_eq Some)
  qed
qed (simp_all add: get_note_def list_notes_def)

lemma creates_Cons: "creates (r # rs) = creates [r] + creates rs"
  by (cases r) simp_all

lemma successful_deletes_Cons:
  "successful_deletes (r # rs) = successful_deletes [r] + successful_deletes rs"
proof (cases r)
  case (Deleted b)
  then show ?thesis by (cases b) simp_all
qed simp_all

lemma generated_ids_Cons: "generated_ids (c # cs) = generated_ids [c] @ generated_ids cs"
  by (cases c) simp_all

lemma count_run:
  "well_formed s \<Longrightarrow> fresh_ids s cs \<Longrightarrow>
   length (notes' (snd (run s cs))) + successful_deletes (fst (run s cs))
     = length (notes' s) + creates (fst (run s cs))"
proof (induction cs arbitrary: s)
  case Nil
  then show ?case by simp
next
  case (Cons c cs)
  let ?s = "snd (exec s c)"
  have k: "set (dict_keys (notes' s)) \<inter> set (generated_ids [c]) = {}"
    and f: "fresh_ids ?s cs"
    using Cons.prems(2) by (auto simp: list_all_iff)
  from Cons.IH [OF well_formed_exec [OF Cons.prems(1)] f]
    count_exec [OF Cons.prems(1) k]
    creates_Cons [of "fst (exec s c)" "fst (run ?s cs)"]
    successful_deletes_Cons [of "fst (exec s c)" "fst (run ?s cs)"]
  show ?case
    unfolding snd_run_Cons fst_run_Cons by linarith
qed

lemma distinct_fresh_ids:
  "distinct (generated_ids cs) \<Longrightarrow>
   set (dict_keys (notes' s)) \<inter> set (generated_ids cs) = {} \<Longrightarrow> fresh_ids s cs"
proof (induction cs arbitrary: s)
  case Nil
  then show ?case by simp
next
  case (Cons c cs)
  let ?s = "snd (exec s c)"
  have d: "distinct (generated_ids cs)"
    and disj: "set (generated_ids [c]) \<inter> set (generated_ids cs) = {}"
    and k1: "set (dict_keys (notes' s)) \<inter> set (generated_ids [c]) = {}"
    and k2: "set (dict_keys (notes' s)) \<inter> set (generated_ids cs) = {}"
    using Cons.prems unfolding generated_ids_Cons [of c cs] by auto
  have "set (dict_keys (notes' ?s)) \<inter> set (generated_ids cs) = {}"
    using keys_exec [of s c] disj k2 by blast
  from Cons.IH [OF d this] k1 show ?case
    by (auto simp: list_all_iff)
qed

subsection \<open>Evaluating the examples\<close>

lemmas example_defs = groceries_def chores_def bread_def shopping_def id0_def id1_def
  note0_def note1_def note0_bread_def one_note_def two_notes_def

lemmas eval_simps = create_note_def new_Note_def Let_def update_note_def alloc_def
  dict_get_def delete_note_eq get_note_def list_notes_def init_def deref_def
  generate_note_id_0 generate_note_id_1 dict_values_def dict_keys_def stored_def
  well_formed_def

section \<open>The claims\<close>

text \<open>
  C1. For every title and content with a non-empty title, \<open>create_note\<close> returns a note
  (the constructor does not raise) with a non-empty \<open>id\<close>, the given title and content,
  and \<open>created_at = updated_at\<close>; \<open>get_note\<close> with that \<open>id\<close> on the resulting store
  returns exactly the note that \<open>create_note\<close> returned (the same object), and leaves
  the store as it is.
\<close>

theorem create_note_then_get_note:
  assumes "title note_create \<noteq> []"
    and "create_note s note_create now rnd = (res, s')"
  shows "\<exists>n. res = Inr n
          \<and> id' (deref s' n) \<noteq> [] \<and> title (deref s' n) = title note_create
          \<and> content (deref s' n) = content note_create
          \<and> created_at (deref s' n) = updated_at (deref s' n)
          \<and> get_note s' (id' (deref s' n)) = (Some n, s')"
proof -
  let ?n = "length (heap s)"
  from assms have res: "res = Inr ?n"
    and s': "s' = s\<lparr>heap := heap s @ [\<lparr>title = title note_create, content = content note_create,
                            id' = generate_note_id rnd, created_at = now, updated_at = now\<rparr>],
        notes' := dict_set (notes' s) (generate_note_id rnd) (length (heap s))\<rparr>"
    by (auto simp add: create_note_valid)
  have d: "deref s' ?n = \<lparr>title = title note_create, content = content note_create,
                            id' = generate_note_id rnd, created_at = now, updated_at = now\<rparr>"
    by (simp add: s' deref_def)
  have "length (generate_note_id rnd) = 36" by (rule length_generate_note_id)
  then have ne: "generate_note_id rnd \<noteq> []" by auto
  have "get_note s' (generate_note_id rnd) = (Some ?n, s')"
    by (simp add: get_note_def) (simp add: s' dict_get_dict_set)
  with res d ne show ?thesis by simp
qed

theorem create_note_then_get_note_witness:
  "title groceries \<noteq> []
   \<and> create_note init groceries 1000 0 = (Inr 0, one_note)
   \<and> deref one_note 0 = note0
   \<and> id' note0 \<noteq> [] \<and> title note0 = title groceries \<and> content note0 = content groceries
   \<and> created_at note0 = updated_at note0
   \<and> get_note one_note (id' note0) = (Some 0, one_note)"
proof -
  have t: "title groceries \<noteq> []" by (simp add: groceries_def)
  have c: "create_note init groceries 1000 0 = (Inr 0, one_note)"
    by (simp add: eval_simps example_defs)
  have d: "deref one_note 0 = note0" by (simp add: deref_def one_note_def)
  from create_note_then_get_note [OF t c] t c d show ?thesis by simp
qed



text \<open>
  C3. In every state reached from the empty store by a history of calls whose clock
  readings never decrease, every stored note has \<open>created_at \<le> updated_at\<close>. Every
  call preserves this: from a well-formed state in which it holds, a call whose clock
  reading is not before the \<open>updated_at\<close> of any stored note leads to a state in which
  it holds.
\<close>

theorem created_at_le_updated_at:
  "(sorted (clock cs) \<longrightarrow> stamps_ordered (snd (run init cs)))
   \<and> (well_formed s \<and> stamps_ordered s
        \<and> list_all (\<lambda>now. list_all (\<lambda>n. updated_at n \<le> now) (stored s)) (clock [c])
      \<longrightarrow> stamps_ordered (snd (exec s c)))"
proof -
  have "stamps_ordered (snd (run init cs))" if "sorted (clock cs)"
  proof (cases "clock cs")
    case Nil
    show ?thesis
      by (rule stamps_run [OF well_formed_init, of 0])
        (simp_all add: Nil stored_def init_def dict_values_def)
  next
    case (Cons t ts)
    show ?thesis
      by (rule stamps_run [OF well_formed_init, of t])
        (use that in \<open>simp_all add: Cons stored_def init_def dict_values_def\<close>)
  qed
  then show ?thesis by (simp add: stamps_step)
qed

theorem created_at_le_updated_at_witness:
  "sorted (clock [Create groceries 1000 0, Update id0 bread 2000])
   \<and> stamps_ordered (snd (run init [Create groceries 1000 0, Update id0 bread 2000]))
   \<and> well_formed one_note \<and> stamps_ordered one_note
   \<and> list_all (\<lambda>now. list_all (\<lambda>n. updated_at n \<le> now) (stored one_note))
        (clock [Update id0 bread 2000])
   \<and> stamps_ordered (snd (exec one_note (Update id0 bread 2000)))"
proof -
  have a: "sorted (clock [Create groceries 1000 0, Update id0 bread 2000])" by simp
  have b: "well_formed one_note \<and> stamps_ordered one_note
   \<and> list_all (\<lambda>now. list_all (\<lambda>n. updated_at n \<le> now) (stored one_note))
        (clock [Update id0 bread 2000])"
    by (simp add: stamps_ordered_def eval_simps example_defs)
  from created_at_le_updated_at
    [of "[Create groceries 1000 0, Update id0 bread 2000]" one_note "Update id0 bread 2000"] a b
  show ?thesis by blast
qed

text \<open>
  C4. \<open>delete_note\<close> returns \<open>True\<close> exactly when the \<open>id\<close> was in the dictionary before
  the call, and afterwards the \<open>id\<close> is absent. So a later \<open>delete_note\<close> of the same
  \<open>id\<close>, after any calls none of which is a \<open>create_note\<close>, returns \<open>False\<close>; and
  \<open>delete_note\<close> of an \<open>id\<close> that is not stored returns \<open>False\<close> and leaves the state
  as it was.
\<close>

theorem delete_note_once:
  assumes "delete_note s note_id = (b, s')"
  shows "(b \<longleftrightarrow> dict_get (notes' s) note_id \<noteq> None)
         \<and> dict_get (notes' s') note_id = None
         \<and> (list_all (\<lambda>c. \<not> is_create c) cs \<longrightarrow>
              fst (delete_note (snd (run s' cs)) note_id) = False)
         \<and> (dict_get (notes' s) note_id = None \<longrightarrow> \<not> b \<and> s' = s)"
proof -
  from assms have b: "b = (dict_get (notes' s) note_id \<noteq> None)"
    and s': "s' = s\<lparr>notes' := filter (\<lambda>p. fst p \<noteq> note_id) (notes' s)\<rparr>"
    by (auto simp: delete_note_eq)
  have absent: "dict_get (notes' s') note_id = None"
    by (simp add: s' dict_get_filter)
  have later: "fst (delete_note (snd (run s' cs)) note_id) = False"
    if "list_all (\<lambda>c. \<not> is_create c) cs"
    using keys_run_not_create [OF that, of s'] absent
    by (auto simp: delete_note_eq dict_get_None_iff)
  have same: "s' = s" if "dict_get (notes' s) note_id = None"
    using that by (simp add: s' filter_absent)
  show ?thesis using b absent later same by blast
qed

theorem delete_note_once_witness:
  "delete_note one_note id0 = (True, \<lparr>heap = [note0], notes' = []\<rparr>)
   \<and> dict_get (notes' one_note) id0 \<noteq> None
   \<and> dict_get (notes' \<lparr>heap = [note0], notes' = []\<rparr>) id0 = None
   \<and> list_all (\<lambda>c. \<not> is_create c) [Get id0, Update id0 bread 2000, List]
   \<and> fst (delete_note
             (snd (run \<lparr>heap = [note0], notes' = []\<rparr> [Get id0, Update id0 bread 2000, List]))
             id0) = False
   \<and> dict_get (notes' one_note) ''does-not-exist'' = None
   \<and> delete_note one_note ''does-not-exist'' = (False, one_note)"
proof -
  have a: "delete_note one_note id0 = (True, \<lparr>heap = [note0], notes' = []\<rparr>)"
    by (simp add: eval_simps example_defs)
  have n: "list_all (\<lambda>c. \<not> is_create c) [Get id0, Update id0 bread 2000, List]"
    by simp
  have b: "delete_note one_note ''does-not-exist''
             = (dict_get (notes' one_note) ''does-not-exist'' \<noteq> None,
                snd (delete_note one_note ''does-not-exist''))"
    by (simp add: delete_note_eq)
  have c: "dict_get (notes' one_note) ''does-not-exist'' = None"
    by (simp add: eval_simps example_defs)
  from delete_note_once [OF a, where cs = "[Get id0, Update id0 bread 2000, List]"] n
    delete_note_once [OF b] b c
  show ?thesis using a by simp
qed

text \<open>
  C5. For every \<open>id\<close> that is not in the store and every optional title and content,
  \<open>update_note\<close> returns \<open>None\<close> and leaves the whole state as it was: no note is
  created under that \<open>id\<close>.
\<close>

theorem update_note_absent:
  assumes "dict_get (notes' s) note_id = None"
  shows "update_note s note_id note_update now = (None, s)"
  using assms by (simp add: update_note_def)

theorem update_note_absent_witness:
  "dict_get (notes' init) ''does-not-exist'' = None
   \<and> update_note init ''does-not-exist'' shopping 7 = (None, init)"
proof -
  have a: "dict_get (notes' init) ''does-not-exist'' = None"
    by (simp add: init_def dict_get_def)
  show ?thesis using update_note_absent [OF a] a by simp
qed

text \<open>
  C6, as amended. In every state reached from the empty store, \<open>list_notes\<close> changes
  nothing and returns a list whose elements are exactly the notes that the dictionary
  holds; the identifiers of the listed notes are, as a multiset, the keys of the
  dictionary. When no \<open>create_note\<close> of the history generated an identifier that was
  in the store at the time, the length of the list is the number of notes created
  minus the number of successful deletes; that is so in particular when the
  identifiers generated during the history are pairwise distinct. The list is a
  snapshot: after any later calls, every reference in it still denotes the note it
  denoted when the list was returned.
\<close>

theorem list_notes_snapshot:
  assumes "run init cs = (rs, s)"
    and "list_notes s = (xs, s1)"
    and "run s1 cs' = (rs', s')"
  shows "s1 = s
         \<and> set xs = ran (dict_get (notes' s))
         \<and> mset (map (\<lambda>r. id' (deref s r)) xs) = mset (dict_keys (notes' s))
         \<and> (fresh_ids init cs \<longrightarrow>
              int (length xs) = int (creates rs) - int (successful_deletes rs))
         \<and> (distinct (generated_ids cs) \<longrightarrow> fresh_ids init cs)
         \<and> map (deref s') xs = map (deref s) xs"
proof -
  from assms(1) have s: "s = snd (run init cs)" and rs: "rs = fst (run init cs)" by simp_all
  from assms(2) have xs: "xs = dict_values (notes' s)" and s1: "s1 = s"
    by (auto simp: list_notes_def)
  from assms(3) have s': "s' = snd (run s cs')" by (simp add: s1)
  have w: "well_formed s" unfolding s by (rule well_formed_run [OF well_formed_init])
  have "ran (map_of (notes' s)) = snd ` set (notes' s)"
    using w by (intro ran_distinct) (simp add: well_formed_def dict_keys_def)
  then have elems: "set xs = ran (dict_get (notes' s))"
    by (simp add: xs dict_values_def dict_get_def [abs_def])
  have "list_all (\<lambda>(k, r). id' (deref s r) = k) (notes' s)"
    unfolding s by (rule keyed_run [OF well_formed_init]) (simp add: init_def)
  then have ids: "map (\<lambda>r. id' (deref s r)) xs = dict_keys (notes' s)"
    unfolding xs by (rule keyed_ids)
  have count: "int (length xs) = int (creates rs) - int (successful_deletes rs)"
    if "fresh_ids init cs"
    using count_run [OF well_formed_init that]
    by (simp add: s rs xs dict_values_def init_def)
  have fresh: "fresh_ids init cs" if "distinct (generated_ids cs)"
    by (rule distinct_fresh_ids [OF that]) (simp add: init_def dict_keys_def)
  have "deref s' r = deref s r" if "r \<in> set xs" for r
    unfolding s' using w that
    by (intro deref_run) (simp add: well_formed_def list_all_iff xs)
  then have "map (deref s') xs = map (deref s) xs" by simp
  with s1 elems ids count fresh show ?thesis by simp
qed

theorem list_notes_snapshot_witness:
  "run init [Create groceries 1000 0, Create chores 1500 1, Delete id0]
     = ([Created 0, Created 1, Deleted True], \<lparr>heap = [note0, note1], notes' = [(id1, 1)]\<rparr>)
   \<and> list_notes \<lparr>heap = [note0, note1], notes' = [(id1, 1)]\<rparr>
       = ([1], \<lparr>heap = [note0, note1], notes' = [(id1, 1)]\<rparr>)
   \<and> run \<lparr>heap = [note0, note1], notes' = [(id1, 1)]\<rparr>
        [Update id1 shopping 2000, Delete id1, Create groceries 3000 0xff]
       = ([Updated (Some 2), Deleted True, Created 3],
          \<lparr>heap = [note0, note1, note1\<lparr>title := ''Shopping'', updated_at := 2000\<rparr>,
                    note0\<lparr>id' := ''00000000-0000-4000-8000-0000000000ff'',
                          created_at := 3000, updated_at := 3000\<rparr>],
            notes' = [(''00000000-0000-4000-8000-0000000000ff'', 3)]\<rparr>)
   \<and> distinct (generated_ids [Create groceries 1000 0, Create chores 1500 1, Delete id0])
   \<and> fresh_ids init [Create groceries 1000 0, Create chores 1500 1, Delete id0]
   \<and> set [1::nat] = ran (dict_get [(id1, 1)])
   \<and> mset (map (\<lambda>r. id' (deref \<lparr>heap = [note0, note1], notes' = [(id1, 1)]\<rparr> r)) [1])
       = mset [id1]
   \<and> int (length [1::nat])
       = int (creates [Created 0, Created 1, Deleted True])
         - int (successful_deletes [Created 0, Created 1, Deleted True])
   \<and> map (deref \<lparr>heap = [note0, note1, note1\<lparr>title := ''Shopping'', updated_at := 2000\<rparr>,
                            note0\<lparr>id' := ''00000000-0000-4000-8000-0000000000ff'',
                                  created_at := 3000, updated_at := 3000\<rparr>],
                    notes' = [(''00000000-0000-4000-8000-0000000000ff'', 3)]\<rparr>) [1]
       = [note1]"
proof -
  have a: "run init [Create groceries 1000 0, Create chores 1500 1, Delete id0]
     = ([Created 0, Created 1, Deleted True], \<lparr>heap = [note0, note1], notes' = [(id1, 1)]\<rparr>)"
    by (simp add: eval_simps example_defs)
  have b: "list_notes \<lparr>heap = [note0, note1], notes' = [(id1, 1)]\<rparr>
       = ([1], \<lparr>heap = [note0, note1], notes' = [(id1, 1)]\<rparr>)"
    by (simp add: eval_simps)
  have c: "run \<lparr>heap = [note0, note1], notes' = [(id1, 1)]\<rparr>
        [Update id1 shopping 2000, Delete id1, Create groceries 3000 0xff]
       = ([Updated (Some 2), Deleted True, Created 3],
          \<lparr>heap = [note0, note1, note1\<lparr>title := ''Shopping'', updated_at := 2000\<rparr>,
                    note0\<lparr>id' := ''00000000-0000-4000-8000-0000000000ff'',
                          created_at := 3000, updated_at := 3000\<rparr>],
            notes' = [(''00000000-0000-4000-8000-0000000000ff'', 3)]\<rparr>)"
    by (simp add: eval_simps generate_note_id_255 example_defs)
  have d: "distinct (generated_ids [Create groceries 1000 0, Create chores 1500 1, Delete id0])"
    by (simp add: generate_note_id_0 generate_note_id_1)
  have e: "map (deref \<lparr>heap = [note0, note1], notes' = [(id1, 1)]\<rparr>) [1] = [note1]"
    by (simp add: deref_def)
  from list_notes_snapshot [OF a b c] d e
  show ?thesis using a b c by (simp add: dict_keys_def)
qed

text \<open>
  C6 as it was stated, with the count for every history, fails when \<open>create_note\<close>
  generates an identifier that is in the store: \<open>self.notes[note_id] = note\<close> then
  replaces the entry. After two creations that draw the same random bytes and no
  delete, \<open>list_notes\<close> returns one note.
\<close>

theorem list_notes_count_repeated_id:
  "run init [Create groceries 1000 0, Create chores 1500 0]
     = ([Created 0, Created 1],
        \<lparr>heap = [note0, note1\<lparr>id' := id0\<rparr>], notes' = [(id0, 1)]\<rparr>)
   \<and> list_notes \<lparr>heap = [note0, note1\<lparr>id' := id0\<rparr>], notes' = [(id0, 1)]\<rparr>
       = ([1], \<lparr>heap = [note0, note1\<lparr>id' := id0\<rparr>], notes' = [(id0, 1)]\<rparr>)
   \<and> creates [Created 0, Created 1] = 2
   \<and> successful_deletes [Created 0, Created 1] = 0
   \<and> int (length [1::nat])
       \<noteq> int (creates [Created 0, Created 1])
         - int (successful_deletes [Created 0, Created 1])"
  by (simp add: eval_simps example_defs)
text \<open>
  C7. In every state reached from the empty store by a history in which every
  \<open>create_note\<close> received a non-empty title and every \<open>update_note\<close> received no title
  or a non-empty one, every stored note has a non-empty title. Every such call
  preserves this: from a well-formed state in which it holds, the call leads to a
  state in which it holds.
\<close>

theorem titles_nonempty_invariant:
  "(list_all validated cs \<longrightarrow> titles_nonempty (snd (run init cs)))
   \<and> (well_formed s \<and> titles_nonempty s \<and> validated c \<longrightarrow> titles_nonempty (snd (exec s c)))"
proof -
  have "titles_nonempty init"
    by (simp add: titles_nonempty_def stored_def init_def dict_values_def)
  then show ?thesis by (simp add: titles_run well_formed_init titles_exec)
qed

theorem titles_nonempty_invariant_witness:
  "list_all validated [Create groceries 1000 0, Update id0 shopping 2000]
   \<and> titles_nonempty (snd (run init [Create groceries 1000 0, Update id0 shopping 2000]))
   \<and> well_formed one_note \<and> titles_nonempty one_note \<and> validated (Update id0 shopping 2000)
   \<and> titles_nonempty (snd (exec one_note (Update id0 shopping 2000)))"
proof -
  have a: "list_all validated [Create groceries 1000 0, Update id0 shopping 2000]"
    by (simp add: NoteCreate_valid_def NoteUpdate_valid_def groceries_def shopping_def)
  have b: "well_formed one_note \<and> titles_nonempty one_note \<and> validated (Update id0 shopping 2000)"
    by (simp add: titles_nonempty_def NoteUpdate_valid_def eval_simps example_defs)
  from titles_nonempty_invariant
    [of "[Create groceries 1000 0, Update id0 shopping 2000]" one_note "Update id0 shopping 2000"]
    a b
  show ?thesis by blast
qed

text \<open>
  C8. In every state reached from the empty store, every key of the dictionary is the
  \<open>id\<close> of a note that an earlier \<open>create_note\<close> returned. So for an \<open>id\<close> that no
  \<open>create_note\<close> of the history returned, \<open>get_note\<close> and \<open>update_note\<close> return \<open>None\<close>
  and \<open>delete_note\<close> returns \<open>False\<close>.
\<close>

theorem never_created_absent:
  "set (dict_keys (notes' (snd (run init cs))))
     \<subseteq> set (returned_ids (snd (run init cs)) (fst (run init cs)))
   \<and> (note_id \<notin> set (returned_ids (snd (run init cs)) (fst (run init cs))) \<longrightarrow>
        fst (get_note (snd (run init cs)) note_id) = None
        \<and> fst (update_note (snd (run init cs)) note_id note_update now) = None
        \<and> fst (delete_note (snd (run init cs)) note_id) = False)"
proof -
  have sub: "set (dict_keys (notes' (snd (run init cs))))
               \<subseteq> set (returned_ids (snd (run init cs)) (fst (run init cs)))"
    using keys_returned_run [of init cs] by (simp add: init_def dict_keys_def)
  have "dict_get (notes' (snd (run init cs))) note_id = None"
    if "note_id \<notin> set (returned_ids (snd (run init cs)) (fst (run init cs)))"
    using that sub by (auto simp: dict_get_None_iff)
  then show ?thesis
    using sub by (simp add: get_note_def update_note_None delete_note_eq)
qed

theorem never_created_absent_witness:
  "run init [Create groceries 1000 0] = ([Created 0], one_note)
   \<and> returned_ids one_note [Created 0] = [id0]
   \<and> dict_keys (notes' one_note) = [id0]
   \<and> ''does-not-exist'' \<notin> set [id0]
   \<and> fst (get_note one_note ''does-not-exist'') = None
   \<and> fst (update_note one_note ''does-not-exist'' bread 2000) = None
   \<and> fst (delete_note one_note ''does-not-exist'') = False"
proof -
  have a: "run init [Create groceries 1000 0] = ([Created 0], one_note)"
    by (simp add: eval_simps example_defs)
  have r: "returned_ids one_note [Created 0] = [id0]"
    by (simp add: eval_simps example_defs)
  have k: "dict_keys (notes' one_note) = [id0]"
    by (simp add: eval_simps example_defs)
  have n: "''does-not-exist'' \<notin> set [id0]" by (simp add: id0_def)
  from never_created_absent [of "[Create groceries 1000 0]" "''does-not-exist''" bread 2000]
  show ?thesis unfolding a fst_conv snd_conv r using a r k n by simp
qed

text \<open>
  C9. The handler of \<open>DELETE /notes/{id}\<close> is claimed to answer an \<open>id\<close> that is stored
  with status 204 and an empty body. Its answer has status 204, but the body is not
  empty: \<open>JSONResponse(status_code=204, content=None)\<close> renders \<open>None\<close> as the JSON text
  \<open>null\<close>. After \<open>POST /notes/\<close> has created a note, deleting it returns a response
  whose body is those four characters (and removes the note).
\<close>

theorem delete_note_handler_body:
  "delete_note_handler (snd (run init [Create groceries 1000 0])) (generate_note_id 0)
     = (Inr \<lparr>response_status_code = 204, body = ''null''\<rparr>, \<lparr>heap = [note0], notes' = []\<rparr>)
   \<and> ''null'' \<noteq> ''''"
  by (simp add: delete_note_handler_eq eval_simps example_defs)

text \<open>
  C10, as amended. Each operation touches at most the entry under its own key. In a
  well-formed state, the entry for a key other than the generated \<open>id\<close> is the same
  after \<open>create_note\<close> as before (an entry that was stored under the generated \<open>id\<close>
  itself is replaced), the entry for a key other than \<open>note_id\<close> is the same after
  \<open>update_note\<close> and after \<open>delete_note\<close> of \<open>note_id\<close> as before, and \<open>get_note\<close> and
  \<open>list_notes\<close> leave the whole state as it was.
\<close>

theorem frame:
  assumes "well_formed s"
  shows "(k \<noteq> generate_note_id rnd \<longrightarrow>
            entry (snd (create_note s note_create now rnd)) k = entry s k)
         \<and> (k \<noteq> note_id \<longrightarrow>
              entry (snd (update_note s note_id note_update now)) k = entry s k
              \<and> entry (snd (delete_note s note_id)) k = entry s k)
         \<and> snd (get_note s note_id) = s
         \<and> snd (list_notes s) = s"
proof -
  have old: "(heap s @ [n]) ! r = heap s ! r" if "dict_get (notes' s) k = Some r" for r n
    using well_formed_allocated [OF assms that] by (simp add: nth_append)
  have c: "entry (snd (create_note s note_create now rnd)) k = entry s k"
    if k: "k \<noteq> generate_note_id rnd"
  proof (cases "title note_create = []")
    case True
    then show ?thesis by (simp add: create_note_invalid)
  next
    case False
    show ?thesis
      using k old
      by (cases "dict_get (notes' s) k")
        (simp_all add: entry_def create_note_valid [OF False] dict_get_dict_set deref_def)
  qed
  have u: "entry (snd (update_note s note_id note_update now)) k = entry s k"
    if k: "k \<noteq> note_id"
  proof (cases "dict_get (notes' s) note_id")
    case None
    then show ?thesis by (simp add: update_note_None)
  next
    case (Some r)
    show ?thesis
      using k old
      by (cases "dict_get (notes' s) k")
        (simp_all add: entry_def update_note_Some [OF Some] dict_get_dict_set deref_def)
  qed
  have d: "entry (snd (delete_note s note_id)) k = entry s k" if "k \<noteq> note_id"
    using that by (simp add: entry_def delete_note_eq dict_get_filter deref_def)
  show ?thesis using c u d by (simp add: get_note_def list_notes_def)
qed

theorem frame_witness:
  "well_formed two_notes \<and> id0 \<noteq> generate_note_id 0xff \<and> id0 \<noteq> id1
   \<and> entry two_notes id0 = Some (0, note0)
   \<and> entry (snd (create_note two_notes chores 3000 0xff)) id0 = Some (0, note0)
   \<and> entry (snd (update_note two_notes id1 bread 3000)) id0 = Some (0, note0)
   \<and> entry (snd (delete_note two_notes id1)) id0 = Some (0, note0)
   \<and> snd (get_note two_notes id1) = two_notes
   \<and> snd (list_notes two_notes) = two_notes"
proof -
  have w: "well_formed two_notes" by (simp add: eval_simps example_defs)
  have a: "id0 \<noteq> generate_note_id 0xff" by (simp add: generate_note_id_255 id0_def)
  have b: "id0 \<noteq> id1" by (simp add: example_defs)
  have e: "entry two_notes id0 = Some (0, note0)"
    by (simp add: entry_def eval_simps example_defs)
  from frame [OF w, where k = id0 and rnd = "0xff" and note_id = id1
      and note_create = chores and now = 3000 and note_update = bread]
    e w a b
  show ?thesis by simp
qed

text \<open>
  C10 as it was stated, with every previously stored entry unchanged by \<open>create_note\<close>,
  fails when the generated identifier is in the store: after one creation, a second
  one that draws the same random bytes replaces the entry of the first.
\<close>

theorem create_note_replaces_entry:
  "run init [Create groceries 1000 0] = ([Created 0], one_note)
   \<and> well_formed one_note
   \<and> entry one_note id0 = Some (0, note0)
   \<and> generate_note_id 0 = id0
   \<and> entry (snd (create_note one_note chores 1500 0)) id0 = Some (1, note1\<lparr>id' := id0\<rparr>)
   \<and> entry (snd (create_note one_note chores 1500 0)) id0 \<noteq> entry one_note id0"
  by (simp add: entry_def eval_simps example_defs)

end
